theory Spec2Isabelle
  imports Complex_Main "HOL-Library.Char_ord" "HOL-Library.List_Lexorder" "HOL-Library.AList"
begin

section \<open>Ticker discovery: text model\<close>

text \<open>
  The service works on Python \<open>str\<close> values. They are modelled as \<^typ>\<open>string\<close> over
  the ASCII repertoire: the character classes below are the ASCII part of what Python's
  Unicode-aware \<open>re\<close>, \<open>str.strip\<close> and \<open>str.upper\<close> use. A character outside
  ASCII is treated as a non-letter, non-space, non-word character that \<open>upper\<close> leaves
  alone; in particular the two letters outside ASCII that Python's case-insensitive
  matching takes for \<open>k\<close> and \<open>s\<close> are not in the model. Python orders strings by code
  point, which is the lexicographic order of \<^typ>\<open>string\<close> used here.
\<close>

definition NL :: char where
  "NL = CHR 0x0A"

definition upper_letters :: string where
  "upper_letters = ''ABCDEFGHIJKLMNOPQRSTUVWXYZ''"

definition lower_letters :: string where
  "lower_letters = ''abcdefghijklmnopqrstuvwxyz''"

definition digits :: string where
  "digits = ''0123456789''"

text \<open>The class \<open>[A-Z]\<close>.\<close>

definition is_AZ :: "char \<Rightarrow> bool" where
  "is_AZ c = (c \<in> set upper_letters)"

text \<open>The class \<open>\w\<close>, which decides the word boundary \<open>\b\<close>.\<close>

definition is_word :: "char \<Rightarrow> bool" where
  "is_word c = (c \<in> set (upper_letters @ lower_letters @ digits @ ''_''))"

text \<open>The class \<open>\s\<close>, and what \<open>str.strip()\<close> removes: tab, line feed, vertical tab,
  form feed, carriage return, the four separators 0x1C to 0x1F, and the space.\<close>

definition is_space :: "char \<Rightarrow> bool" where
  "is_space c = (c \<in> set [CHR 0x09, CHR 0x0A, CHR 0x0B, CHR 0x0C, CHR 0x0D,
                            CHR 0x1C, CHR 0x1D, CHR 0x1E, CHR 0x1F, CHR '' ''])"

definition upper_char :: "char \<Rightarrow> char" where
  "upper_char c = (case map_of (zip lower_letters upper_letters) c of Some u \<Rightarrow> u | None \<Rightarrow> c)"

definition lower_char :: "char \<Rightarrow> char" where
  "lower_char c = (case map_of (zip upper_letters lower_letters) c of Some l \<Rightarrow> l | None \<Rightarrow> c)"

text \<open>\<open>str.upper()\<close>.\<close>

definition upper :: "string \<Rightarrow> string" where
  "upper s = map upper_char s"

text \<open>\<open>str.strip()\<close>.\<close>

definition strip :: "string \<Rightarrow> string" where
  "strip s = rev (dropWhile is_space (rev (dropWhile is_space s)))"

text \<open>\<open>STOP\<close>: the set built from the whitespace-split literal (USD occurs twice in it).\<close>

definition STOP_words :: "string list" where
  "STOP_words =
    [''AI'', ''CEO'', ''EPS'', ''ETF'', ''GDP'', ''USD'', ''IPO'', ''YOY'', ''EBIT'', ''EBITDA'',
     ''FCF'', ''FED'', ''SEC'', ''CPI'', ''PPI'', ''PE'', ''EV'', ''PS'', ''GAAP'', ''ADR'',
     ''OTC'', ''BTC'', ''ETH'', ''USD'', ''EUR'', ''NET'', ''FIG'']"

definition STOP :: "string set" where
  "STOP = set STOP_words"

subsection \<open>The regular expressions\<close>

text \<open>
  Each pattern is written as the backtracking search Python's \<open>re\<close> performs: the
  alternatives of every quantifier are listed in the order the engine tries them (greedy:
  longest first) and the first alternative under which the rest of the pattern matches is
  the match. A matcher gets the text from the position tried and answers the group the
  caller reads together with the length of the whole match.
\<close>

text \<open>\<open>[A-Z]{lo,hi}\<close>: the counts the engine tries, given as the descending list \<open>ns\<close>,
  cut down to the letters that are there.\<close>

definition az_counts :: "nat list \<Rightarrow> string \<Rightarrow> nat list" where
  "az_counts ns s = filter (\<lambda>n. n \<le> length (takeWhile is_AZ s)) ns"

text \<open>\<open>(?:\.[A-Z]{1,2})?\<close>: the lengths the optional suffix can take, in the order tried:
  a dot with two letters, a dot with one letter, nothing.\<close>

definition suffix_counts :: "string \<Rightarrow> nat list" where
  "suffix_counts s =
     (case s of
        [] \<Rightarrow> []
      | c # t \<Rightarrow> if c = CHR ''.'' then map Suc (az_counts [2, 1] t) else []) @ [0]"

text \<open>\<open>[A-Z]{..}(?:\.[A-Z]{1,2})?\<close>: every way to match it at the head of \<open>s\<close>, as
  (letters, suffix length), in the order tried.\<close>

definition symbol_splits :: "nat list \<Rightarrow> string \<Rightarrow> (nat \<times> nat) list" where
  "symbol_splits ns s = concat (map (\<lambda>a. map (\<lambda>b. (a, b)) (suffix_counts (drop a s))) (az_counts ns s))"

text \<open>\<open>\b\<close> between the character before (none at the start of the text) and the text that
  follows.\<close>

definition word_boundary :: "char option \<Rightarrow> string \<Rightarrow> bool" where
  "word_boundary prev s =
     ((case prev of None \<Rightarrow> False | Some p \<Rightarrow> is_word p) \<noteq>
      (case s of [] \<Rightarrow> False | c # _ \<Rightarrow> is_word c))"

text \<open>\<open>\b\<close> after the first \<open>n\<close> characters of \<open>s\<close>, for \<open>n > 0\<close>.\<close>

definition boundary_after :: "nat \<Rightarrow> string \<Rightarrow> bool" where
  "boundary_after n s = word_boundary (Some (last (take n s))) (drop n s)"

text \<open>\<open>re.fullmatch(r"[A-Z]{1,5}(?:\.[A-Z]{1,2})?", p)\<close>.\<close>

definition symbol_shape :: "string \<Rightarrow> bool" where
  "symbol_shape p = list_ex (\<lambda>(a, b). a + b = length p) (symbol_splits [5, 4, 3, 2, 1] p)"

text \<open>\<open>CASHTAG = \$([A-Z]{1,5}(?:\.[A-Z]{1,2})?)\b\<close>, group 1.\<close>

definition CASHTAG :: "char option \<Rightarrow> string \<Rightarrow> (string \<times> nat) option" where
  "CASHTAG prev s =
     (case s of
        [] \<Rightarrow> None
      | c # t \<Rightarrow>
          if c \<noteq> CHR ''$'' then None
          else (case find (\<lambda>(a, b). boundary_after (a + b) t) (symbol_splits [5, 4, 3, 2, 1] t) of
                  None \<Rightarrow> None
                | Some (a, b) \<Rightarrow> Some (take (a + b) t, 1 + a + b)))"

text \<open>\<open>(?::[A-Z]+)?\<close>: a colon with all the letters that follow, then with fewer, down to
  one; then nothing.\<close>

definition exchange_counts :: "string \<Rightarrow> nat list" where
  "exchange_counts s =
     (case s of
        [] \<Rightarrow> []
      | c # t \<Rightarrow> if c = CHR '':'' then map Suc (rev [1 ..< Suc (length (takeWhile is_AZ t))]) else [])
     @ [0]"

text \<open>\<open>PAREN = \(([A-Z]{1,5})(?::[A-Z]+)?\)\<close>, group 1.\<close>

definition PAREN :: "char option \<Rightarrow> string \<Rightarrow> (string \<times> nat) option" where
  "PAREN prev s =
     (case s of
        [] \<Rightarrow> None
      | c # t \<Rightarrow>
          if c \<noteq> CHR ''('' then None
          else (case find (\<lambda>(a, b). take 1 (drop (a + b) t) = '')'')
                      (concat (map (\<lambda>a. map (\<lambda>b. (a, b)) (exchange_counts (drop a t)))
                                   (az_counts [5, 4, 3, 2, 1] t))) of
                  None \<Rightarrow> None
                | Some (a, b) \<Rightarrow> Some (take a t, 1 + a + b + 1)))"

text \<open>\<open>UPPERC = \b([A-Z]{2,5})(?:\.[A-Z]{1,2})?\b\<close>, group 1 (the letters without the
  suffix).\<close>

definition UPPERC :: "char option \<Rightarrow> string \<Rightarrow> (string \<times> nat) option" where
  "UPPERC prev s =
     (if \<not> word_boundary prev s then None
      else (case find (\<lambda>(a, b). boundary_after (a + b) s) (symbol_splits [5, 4, 3, 2] s) of
              None \<Rightarrow> None
            | Some (a, b) \<Rightarrow> Some (take a s, a + b)))"

text \<open>\<open>URL_TKR = /(quote|symbol|ticker)/([A-Z]{1,5}(?:\.[A-Z]{1,2})?)\<close>, group 2. Nothing
  follows the symbol, so its first (longest) alternative is the match.\<close>

definition URL_TKR :: "char option \<Rightarrow> string \<Rightarrow> (string \<times> nat) option" where
  "URL_TKR prev s =
     (case find (\<lambda>w. take (length w) s = w) [''/quote/'', ''/symbol/'', ''/ticker/''] of
        None \<Rightarrow> None
      | Some w \<Rightarrow>
          (case symbol_splits [5, 4, 3, 2, 1] (drop (length w) s) of
             [] \<Rightarrow> None
           | (a, b) # _ \<Rightarrow> Some (take (a + b) (drop (length w) s), length w + a + b)))"

text \<open>
  \<open>pattern.finditer(text)\<close>: the matches from left to right, none overlapping; the search
  resumes where a match ended. \<open>prev\<close> is the character before the position tried. None
  of the four patterns matches the empty string, so nothing is tried at the end of the
  text, and a match of length 0 would be stepped over by one character.
\<close>

fun finditer :: "(char option \<Rightarrow> string \<Rightarrow> (string \<times> nat) option) \<Rightarrow> char option \<Rightarrow> string \<Rightarrow> string list" where
  "finditer m prev [] = []"
| "finditer m prev (c # cs) =
     (case m prev (c # cs) of
        None \<Rightarrow> finditer m (Some c) cs
      | Some (g, n) \<Rightarrow>
          g # finditer m (Some (last (take (max 1 n) (c # cs)))) (drop (max 1 n - 1) cs))"

subsection \<open>Normalising and splitting\<close>

text \<open>
  \<open>html.unescape(s)\<close> of the standard library returns \<open>s\<close> itself when it holds no
  ampersand and otherwise substitutes every character reference. The substitution (with
  its table of entity names) is the parameter \<open>charref\<close>.
\<close>

definition html_unescape :: "(string \<Rightarrow> string) \<Rightarrow> string \<Rightarrow> string" where
  "html_unescape charref s = (if CHR ''&'' \<notin> set s then s else charref s)"

text \<open>\<open>re.sub(r"\s+", " ", s)\<close>: every maximal run of whitespace becomes one space. The
  flag says that the character before was whitespace of a run already replaced.\<close>

fun sub_spaces :: "bool \<Rightarrow> string \<Rightarrow> string" where
  "sub_spaces in_run [] = []"
| "sub_spaces in_run (c # cs) =
     (if is_space c then (if in_run then sub_spaces True cs else CHR '' '' # sub_spaces True cs)
      else c # sub_spaces False cs)"

text \<open>\<open>_clean(s)\<close>, with \<open>s or ""\<close> for a field that is \<open>None\<close>.\<close>

definition clean :: "(string \<Rightarrow> string) \<Rightarrow> string option \<Rightarrow> string" where
  "clean charref s =
     strip (sub_spaces False (html_unescape charref (case s of None \<Rightarrow> [] | Some t \<Rightarrow> t)))"

text \<open>\<open>sep.join(parts)\<close>.\<close>

fun join :: "string \<Rightarrow> string list \<Rightarrow> string" where
  "join sep [] = []"
| "join sep [p] = p"
| "join sep (p # q # ps) = p @ sep @ join sep (q # ps)"

text \<open>\<open>s.split("\n")\<close>: the pieces between line feeds, empty ones kept.\<close>

fun split_lines :: "string \<Rightarrow> string list" where
  "split_lines [] = [[]]"
| "split_lines (c # cs) =
     (case split_lines cs of
        [] \<Rightarrow> [[]]
      | l # ls \<Rightarrow> if c = NL then [] # l # ls else (c # l) # ls)"

text \<open>\<open>re.split(r"[,\s;/]+", s)\<close>: the pieces between maximal runs of delimiters; a run at
  the start or the end leaves an empty piece there. \<open>cur\<close> is the piece being read,
  reversed, and the flag says that the character before was a delimiter.\<close>

definition is_delim :: "char \<Rightarrow> bool" where
  "is_delim c = (c = CHR '','' \<or> is_space c \<or> c = CHR '';'' \<or> c = CHR ''/'')"

fun re_split :: "string \<Rightarrow> bool \<Rightarrow> string \<Rightarrow> string list" where
  "re_split cur in_run [] = [rev cur]"
| "re_split cur in_run (c # cs) =
     (if is_delim c then (if in_run then re_split cur True cs else rev cur # re_split [] True cs)
      else re_split (c # cur) False cs)"

text \<open>\<open>_split_symbols(s)\<close>.\<close>

definition split_symbols :: "string \<Rightarrow> string list" where
  "split_symbols s = filter symbol_shape (map (\<lambda>p. upper (strip p)) (re_split [] False (strip s)))"

subsection \<open>Recommendation lines\<close>

text \<open>The verb of a list line: \<open>m.group(1).lower()\<close>, one of \<open>keep\<close>, \<open>cut\<close>, \<open>sell\<close>.\<close>

datatype verb = Keep | Cut | Sell

definition verb_word :: "verb \<Rightarrow> string" where
  "verb_word v = (case v of Keep \<Rightarrow> ''keep'' | Cut \<Rightarrow> ''cut'' | Sell \<Rightarrow> ''sell'')"

text \<open>\<open>action.capitalize()\<close>.\<close>

definition capitalize :: "verb \<Rightarrow> string" where
  "capitalize v = (case v of Keep \<Rightarrow> ''Keep'' | Cut \<Rightarrow> ''Cut'' | Sell \<Rightarrow> ''Sell'')"

text \<open>\<open>\s*\<close> followed by the rest of a pattern \<open>k\<close>: all the whitespace first, then one
  character less each time the rest fails.\<close>

fun spaces_then :: "(string \<Rightarrow> 'a option) \<Rightarrow> string \<Rightarrow> 'a option" where
  "spaces_then k [] = k []"
| "spaces_then k (c # cs) =
     (if is_space c then (case spaces_then k cs of Some r \<Rightarrow> Some r | None \<Rightarrow> k (c # cs))
      else k (c # cs))"

text \<open>\<open>(keep|cut|sell)\<close> under \<open>(?i)\<close>, followed by the rest of the pattern \<open>k\<close>. The three
  words start with different letters, so at most one alternative matches.\<close>

definition verb_then :: "(verb \<Rightarrow> string \<Rightarrow> 'a option) \<Rightarrow> string \<Rightarrow> 'a option" where
  "verb_then k s =
     (case find (\<lambda>v. map lower_char (take (length (verb_word v)) s) = verb_word v) [Keep, Cut, Sell] of
        None \<Rightarrow> None
      | Some v \<Rightarrow> k v (drop (length (verb_word v)) s))"

text \<open>\<open>(.+)$\<close>: the dot takes every character up to a line feed and at least one; \<open>$\<close>
  holds at the end of the text and before a line feed that ends it. With fewer characters
  for the dot, a character other than a line feed follows and \<open>$\<close> fails.\<close>

definition rest_of_line :: "string \<Rightarrow> string option" where
  "rest_of_line s =
     (let g = takeWhile (\<lambda>c. c \<noteq> NL) s; r = dropWhile (\<lambda>c. c \<noteq> NL) s
      in if g \<noteq> [] \<and> (r = [] \<or> r = [NL]) then Some g else None)"

text \<open>\<open>ACTION.match(line)\<close> for \<open>ACTION = (?i)^\s*(keep|cut|sell)\s*:\s*(.+)$\<close>: the
  verb and group 2.\<close>

definition ACTION :: "string \<Rightarrow> (verb \<times> string) option" where
  "ACTION line =
     spaces_then (verb_then (\<lambda>v. spaces_then (\<lambda>s.
        case s of
          [] \<Rightarrow> None
        | c # t \<Rightarrow> if c = CHR '':''
                   then spaces_then (\<lambda>u. map_option (\<lambda>g. (v, g)) (rest_of_line u)) t
                   else None))) line"

section \<open>Detection for one story\<close>

text \<open>
  The request models \<open>N8nComment\<close> and \<open>N8nStory\<close>, with the fields the service reads;
  the other fields of a story (platform, author, score, sentiment and so on) are never
  read. An \<open>Optional[str]\<close> field is a \<^typ>\<open>string option\<close>.
\<close>

record N8nComment =
  body :: "string option"

record N8nStory =
  url :: "string option"
  title :: "string option"
  excerpt :: "string option"
  combined_text :: "string option"
  comments :: "N8nComment list"

text \<open>One entry of \<open>cand_list\<close> and one of \<open>tallies_list\<close>.\<close>

record candidate =
  symbol :: string
  reasons :: "string list"

record tally =
  ticker :: string
  keep :: int
  cut :: int
  sell :: int

text \<open>What \<open>detect_from_story\<close> returns.\<close>

record detected =
  d_url :: "string option"
  d_title :: "string option"
  candidates :: "candidate list"
  tallies :: "tally list"

text \<open>\<open>x or ""\<close> for an optional string.\<close>

definition or_empty :: "string option \<Rightarrow> string" where
  "or_empty x = (case x of None \<Rightarrow> [] | Some t \<Rightarrow> t)"

text \<open>
  The dictionary \<open>candidates\<close> maps a symbol to its set of reasons. It is an association
  list in insertion order, as a Python \<open>dict\<close> is, and a set of reasons is a list without
  repetitions. \<open>add\<close> is the closure of \<open>detect_from_story\<close>, with the dictionary it
  updates as its last argument.
\<close>

definition add :: "string \<Rightarrow> string \<Rightarrow> (string \<times> string list) list \<Rightarrow> (string \<times> string list) list" where
  "add s reason cands =
     (let symb = upper s in
      if length symb > 6 then cands
      else if symb \<in> STOP then cands
      else if \<not> symbol_shape symb then cands
      else AList.update symb
             (List.insert reason (case map_of cands symb of None \<Rightarrow> [] | Some rs \<Rightarrow> rs)) cands)"

text \<open>\<open>t = tallies.get(sym) or {...}; t[action] += 1; tallies[sym] = t\<close>.\<close>

definition count_up :: "verb \<Rightarrow> tally \<Rightarrow> tally" where
  "count_up v t =
     (case v of
        Keep \<Rightarrow> t\<lparr>keep := keep t + 1\<rparr>
      | Cut \<Rightarrow> t\<lparr>cut := cut t + 1\<rparr>
      | Sell \<Rightarrow> t\<lparr>sell := sell t + 1\<rparr>)"

definition tally_up :: "verb \<Rightarrow> string \<Rightarrow> (string \<times> tally) list \<Rightarrow> (string \<times> tally) list" where
  "tally_up v symb tal =
     AList.update symb
       (count_up v (case map_of tal symb of
                      None \<Rightarrow> \<lparr>ticker = symb, keep = 0, cut = 0, sell = 0\<rparr>
                    | Some t \<Rightarrow> t)) tal"

text \<open>The reason tag \<open>f"list:{action.capitalize()}"\<close>.\<close>

definition list_reason :: "verb \<Rightarrow> string" where
  "list_reason v = ''list:'' @ capitalize v"

text \<open>The body of the loop over the lines: a line that \<open>ACTION\<close> does not match is skipped;
  every symbol of a matching line is proposed as a candidate and counted.\<close>

definition action_line ::
  "string \<Rightarrow> (string \<times> string list) list \<times> (string \<times> tally) list
     \<Rightarrow> (string \<times> string list) list \<times> (string \<times> tally) list" where
  "action_line raw_line st =
     (case ACTION raw_line of
        None \<Rightarrow> st
      | Some (action, g) \<Rightarrow>
          fold (\<lambda>symb (cands, tal). (add symb (list_reason action) cands, tally_up action symb tal))
               (split_symbols g) st)"

text \<open>\<open>str.isdigit()\<close> on ASCII text.\<close>

definition isdigit :: "string \<Rightarrow> bool" where
  "isdigit s = (s \<noteq> [] \<and> list_all (\<lambda>c. c \<in> set digits) s)"

text \<open>The body of the loop over the \<open>UPPERC\<close> matches.\<close>

definition allcaps :: "string \<Rightarrow> (string \<times> string list) list \<Rightarrow> (string \<times> string list) list" where
  "allcaps g cands =
     (let symb = upper g in
      if symb \<notin> STOP \<and> length symb \<le> 5 \<and> \<not> isdigit symb then add symb ''allcaps'' cands else cands)"

definition blocks :: "N8nStory \<Rightarrow> string list" where
  "blocks s =
     [or_empty (title s), or_empty (excerpt s), or_empty (combined_text s)] @
     (if comments s \<noteq> [] then map (\<lambda>c. or_empty (body c)) (comments s) else [])"

definition joined :: "(string \<Rightarrow> string) \<Rightarrow> N8nStory \<Rightarrow> string" where
  "joined charref s = join [CHR '' '', NL, CHR '' ''] (map (\<lambda>b. clean charref (Some b)) (blocks s))"

text \<open>The dictionaries after the five loops, in the order the function runs them.\<close>

definition scan :: "string \<Rightarrow> (string \<times> string list) list \<times> (string \<times> tally) list" where
  "scan text =
     (let c1 = fold (\<lambda>g. add g ''cashtag'') (finditer CASHTAG None text) [];
          c2 = fold (\<lambda>g. add g ''paren'') (finditer PAREN None text) c1;
          c3 = fold (\<lambda>g. add g ''url'') (finditer URL_TKR None text) c2;
          (c4, tal) = fold action_line (split_lines text) (c3, []);
          c5 = fold allcaps (finditer UPPERC None text) c4
      in (c5, tal))"

definition detect_from_story :: "(string \<Rightarrow> string) \<Rightarrow> N8nStory \<Rightarrow> detected" where
  "detect_from_story charref s =
     (let (cands, tal) = scan (joined charref s) in
      \<lparr>d_url = url s, d_title = title s,
       candidates = map (\<lambda>(symb, rs). \<lparr>symbol = symb, reasons = sort rs\<rparr>) (sort_key fst cands),
       tallies = sort_key ticker (map snd tal)\<rparr>)"

section \<open>The cache and the verification client\<close>

text \<open>
  The reply of the search endpoint, at the shape the service reads: an object whose
  \<open>quotes\<close> (the key may be absent) is a list of objects with string fields, any of them
  absent. The clock \<open>time.time()\<close> is modelled by exact real numbers.
\<close>

record quote =
  q_symbol :: "string option"
  q_shortname :: "string option"
  q_longname :: "string option"
  q_exchDisp :: "string option"
  q_quoteType :: "string option"

record payload =
  quotes :: "quote list option"

text \<open>The dictionary \<open>verify_symbol\<close> and \<open>resolve_name\<close> return.\<close>

record VerifiedSymbol =
  v_symbol :: "string option"
  v_shortname :: "string option"
  v_longname :: "string option"
  v_exchange :: "string option"
  v_type :: "string option"

text \<open>One value of \<open>_cache\<close>.\<close>

record entry =
  ts :: real
  data :: payload

definition TTL :: real where
  "TTL = 15 * 60"

text \<open>\<open>cache_get(key)\<close> at clock reading \<open>now\<close>: the payload or \<open>None\<close>, and the cache
  it leaves.\<close>

definition cache_get :: "real \<Rightarrow> string \<Rightarrow> (string \<rightharpoonup> entry) \<Rightarrow> payload option \<times> (string \<rightharpoonup> entry)" where
  "cache_get now key c =
     (case c key of
        None \<Rightarrow> (None, c)
      | Some v \<Rightarrow> if now - ts v > TTL then (None, c(key := None)) else (Some (data v), c))"

text \<open>\<open>cache_set(key, data)\<close> at clock reading \<open>now\<close>.\<close>

definition cache_set :: "real \<Rightarrow> string \<Rightarrow> payload \<Rightarrow> (string \<rightharpoonup> entry) \<Rightarrow> (string \<rightharpoonup> entry)" where
  "cache_set now key d c = c(key \<mapsto> \<lparr>ts = now, data = d\<rparr>)"

text \<open>
  What \<open>yahoo_search\<close> raises: the request fails or times out, \<open>raise_for_status\<close>
  rejects the status, or the body is not JSON.
\<close>

datatype error = TransportError | Timeout | HTTPStatusError | JSONDecodeError

text \<open>
  The surroundings of one call of \<open>yahoo_search\<close>: the clock when the cache is read, what
  the endpoint does if it is asked, and the clock when the reply is stored.
\<close>

record env =
  t_get :: real
  reply :: "error + payload"
  t_set :: real

text \<open>The state of the process: the cache, and the queries sent to the endpoint so far (kept
  to count them).\<close>

record state =
  cache :: "string \<rightharpoonup> entry"
  sent :: "string list"

text \<open>The key \<open>f"yh:{q}"\<close>.\<close>

definition cache_key :: "string \<Rightarrow> string" where
  "cache_key q = ''yh:'' @ q"

definition yahoo_search :: "env \<Rightarrow> string \<Rightarrow> state \<Rightarrow> (error + payload) \<times> state" where
  "yahoo_search e q st =
     (let key = cache_key q; (hit, c) = cache_get (t_get e) key (cache st) in
      case hit of
        Some d \<Rightarrow> (Inr d, st\<lparr>cache := c\<rparr>)
      | None \<Rightarrow>
          (case reply e of
             Inl err \<Rightarrow> (Inl err, \<lparr>cache = c, sent = sent st @ [q]\<rparr>)
           | Inr d \<Rightarrow> (Inr d, \<lparr>cache = cache_set (t_set e) key d c, sent = sent st @ [q]\<rparr>)))"

definition from_quote :: "quote \<Rightarrow> VerifiedSymbol" where
  "from_quote q =
     \<lparr>v_symbol = q_symbol q, v_shortname = q_shortname q, v_longname = q_longname q,
      v_exchange = q_exchDisp q, v_type = q_quoteType q\<rparr>"

text \<open>\<open>d.get("quotes", [])\<close>.\<close>

definition get_quotes :: "payload \<Rightarrow> quote list" where
  "get_quotes d = (case quotes d of None \<Rightarrow> [] | Some qs \<Rightarrow> qs)"

text \<open>The loop of \<open>verify_symbol\<close>: the first quote whose symbol is \<open>sym\<close> up to case.\<close>

definition select_symbol :: "string \<Rightarrow> payload \<Rightarrow> VerifiedSymbol option" where
  "select_symbol s d =
     map_option from_quote (find (\<lambda>q. upper (or_empty (q_symbol q)) = upper s) (get_quotes d))"

text \<open>The loop of \<open>resolve_name\<close>: the first quote of one of the five instrument types.\<close>

definition select_name :: "payload \<Rightarrow> VerifiedSymbol option" where
  "select_name d =
     map_option from_quote
       (find (\<lambda>q. q_quoteType q \<in> Some ` set [''EQUITY'', ''ETF'', ''MUTUALFUND'', ''INDEX'', ''CRYPTO''])
             (get_quotes d))"

text \<open>\<open>verify_symbol\<close> and \<open>resolve_name\<close>: an exception of \<open>yahoo_search\<close> is caught and
  answered by \<open>None\<close>.\<close>

definition verify_symbol :: "env \<Rightarrow> string \<Rightarrow> state \<Rightarrow> VerifiedSymbol option \<times> state" where
  "verify_symbol e s st =
     (case yahoo_search e s st of
        (Inl err, st') \<Rightarrow> (None, st')
      | (Inr d, st') \<Rightarrow> (select_symbol s d, st'))"

definition resolve_name :: "env \<Rightarrow> string \<Rightarrow> state \<Rightarrow> VerifiedSymbol option \<times> state" where
  "resolve_name e name st =
     (case yahoo_search e name st of
        (Inl err, st') \<Rightarrow> (None, st')
      | (Inr d, st') \<Rightarrow> (select_name d, st'))"

section \<open>The Discover endpoint\<close>

record DiscoverReq =
  stories :: "N8nStory list"
  verify :: bool

text \<open>An entry of \<open>per_story\<close>: what \<open>detect_from_story\<close> returned, with the key
  \<open>allowed_tickers\<close> attached.\<close>

record story_entry = detected +
  allowed_tickers :: "string list"

record response =
  per_story :: "story_entry list"
  union_candidates :: "string list"
  verified :: "VerifiedSymbol list"
  allowed :: "string list"

text \<open>\<open>sorted({...})\<close> of the set whose elements the list enumerates.\<close>

definition sorted_set :: "string list \<Rightarrow> string list" where
  "sorted_set xs = sort (remdups xs)"

text \<open>
  \<open>asyncio.gather(*[verify_symbol(sym) for sym in union])\<close>. The calls are run one after
  the other, in the order of the results, each in its own surroundings \<open>envs sym\<close>; the
  symbols of \<open>union\<close> are distinct, so no call reads or writes the cache key of another.
\<close>

fun gather :: "(string \<Rightarrow> env) \<Rightarrow> string list \<Rightarrow> state \<Rightarrow> VerifiedSymbol option list \<times> state" where
  "gather envs [] st = ([], st)"
| "gather envs (s # ss) st =
     (let (r, st1) = verify_symbol (envs s) s st; (rs, st2) = gather envs ss st1
      in (r # rs, st2))"

text \<open>\<open>[x for x in res if x]\<close>.\<close>

fun found :: "'a option list \<Rightarrow> 'a list" where
  "found [] = []"
| "found (None # rs) = found rs"
| "found (Some x # rs) = x # found rs"

text \<open>\<open>x["symbol"].upper()\<close> for every verified \<open>x\<close>; \<open>None.upper()\<close> raises.\<close>

datatype failure = AttributeError

fun upper_symbols :: "VerifiedSymbol list \<Rightarrow> failure + string list" where
  "upper_symbols [] = Inr []"
| "upper_symbols (x # xs) =
     (case v_symbol x of
        None \<Rightarrow> Inl AttributeError
      | Some s \<Rightarrow> (case upper_symbols xs of Inl f \<Rightarrow> Inl f | Inr us \<Rightarrow> Inr (upper s # us)))"

text \<open>The loop that attaches \<open>allowed_tickers\<close> to a story.\<close>

definition attach :: "string list \<Rightarrow> detected \<Rightarrow> story_entry" where
  "attach allowed_syms ps =
     \<lparr>d_url = d_url ps, d_title = d_title ps, candidates = candidates ps, tallies = tallies ps,
      allowed_tickers =
        sorted_set (filter (\<lambda>s. s \<in> set allowed_syms) (map symbol (candidates ps)))\<rparr>"

definition discover_n8n ::
  "(string \<Rightarrow> string) \<Rightarrow> (string \<Rightarrow> env) \<Rightarrow> DiscoverReq \<Rightarrow> state \<Rightarrow> (failure + response) \<times> state" where
  "discover_n8n charref envs req st =
     (let found_per_story = map (detect_from_story charref) (stories req);
          union = sorted_set (concat (map (\<lambda>ps. map symbol (candidates ps)) found_per_story))
      in if verify req \<and> union \<noteq> [] then
           (let (res, st') = gather envs union st; vs = found res in
            case upper_symbols vs of
              Inl f \<Rightarrow> (Inl f, st')
            | Inr us \<Rightarrow>
                (Inr \<lparr>per_story = map (attach (sorted_set us)) found_per_story,
                      union_candidates = union, verified = vs, allowed = sorted_set us\<rparr>, st'))
         else
           (Inr \<lparr>per_story = map (attach union) found_per_story,
                 union_candidates = union, verified = [], allowed = union\<rparr>, st))"

section \<open>Example inputs\<close>

text \<open>A process that has just started, a reply of the endpoint for the query AAPL, and a
  process whose cache holds that reply since clock reading 0.\<close>

definition S0 :: state where
  "S0 = \<lparr>cache = Map.empty, sent = []\<rparr>"

definition AAPL_reply :: payload where
  "AAPL_reply =
     \<lparr>quotes = Some [\<lparr>q_symbol = Some ''AAPL'', q_shortname = Some ''Apple Inc.'',
                      q_longname = Some ''Apple Inc.'', q_exchDisp = Some ''NASDAQ'',
                      q_quoteType = Some ''EQUITY''\<rparr>]\<rparr>"

definition S_old :: state where
  "S_old = \<lparr>cache = [cache_key ''AAPL'' \<mapsto> \<lparr>ts = 0, data = AAPL_reply\<rparr>], sent = []\<rparr>"

text \<open>A story with a title and nothing else, two such stories, and an endpoint that knows
  AAPL and times out on every other query.\<close>

definition titled :: "string \<Rightarrow> N8nStory" where
  "titled t = \<lparr>url = None, title = Some t, excerpt = None, combined_text = None, comments = []\<rparr>"

definition two_stories :: "N8nStory list" where
  "two_stories = [titled ''$NVDA up'', titled ''(AAPL) and $NVDA'']"

definition answers_AAPL :: "string \<Rightarrow> env" where
  "answers_AAPL q =
     \<lparr>t_get = 10, reply = (if q = ''AAPL'' then Inr AAPL_reply else Inl Timeout), t_set = 11\<rparr>"

text \<open>A story whose only text is its excerpt, its combined text, or the body of its one
  comment.\<close>

definition in_excerpt :: "string \<Rightarrow> N8nStory" where
  "in_excerpt t = \<lparr>url = None, title = None, excerpt = Some t, combined_text = None, comments = []\<rparr>"

definition in_combined_text :: "string \<Rightarrow> N8nStory" where
  "in_combined_text t = \<lparr>url = None, title = None, excerpt = None, combined_text = Some t, comments = []\<rparr>"

definition in_comment :: "string \<Rightarrow> N8nStory" where
  "in_comment t = \<lparr>url = None, title = None, excerpt = None, combined_text = None,
                   comments = [\<lparr>body = Some t\<rparr>]\<rparr>"

text \<open>The text of the scenario with a cashtag, a parenthesis and a list, the candidates the
  code extracts from it, and the recommendation line of the tally example.\<close>

definition strong_text :: string where
  "strong_text = ''$NVDA and (OXY) look strong, Keep: NVDA, AAPL''"

definition strong_candidates :: "candidate list" where
  "strong_candidates =
     [\<lparr>symbol = ''AAPL'', reasons = [''allcaps'']\<rparr>,
      \<lparr>symbol = ''NVDA'', reasons = [''allcaps'', ''cashtag'']\<rparr>,
      \<lparr>symbol = ''OXY'', reasons = [''allcaps'', ''paren'']\<rparr>]"


section \<open>Auxiliary notions\<close>

text \<open>What \<open>add\<close> demands of a symbol before it enters the dictionary, and the
  dictionaries all of whose keys met the demand, each key once.\<close>

definition admissible :: "string \<Rightarrow> bool" where
  "admissible k = (k \<notin> STOP \<and> symbol_shape k \<and> length k \<le> 6)"

definition well_keyed :: "(string \<times> string list) list \<Rightarrow> bool" where
  "well_keyed cands = (distinct (map fst cands) \<and> list_all admissible (map fst cands))"

text \<open>The candidate symbols of all stories, in the order of the comprehension of
  \<open>discover_n8n\<close>.\<close>

definition all_candidate_symbols :: "detected list \<Rightarrow> string list" where
  "all_candidate_symbols ds = concat (map (\<lambda>ps. map symbol (candidates ps)) ds)"

text \<open>
  The symbols a line lists, each with the verb of the line (nothing for a line that is not
  a recommendation line), and the listings of all the lines of a text, in order. The tally
  a list of listings gives a symbol counts, for each verb, the listings of the symbol
  under that verb: every listing adds one.
\<close>

definition mentions_of_line :: "string \<Rightarrow> (verb \<times> string) list" where
  "mentions_of_line l = (case ACTION l of None \<Rightarrow> [] | Some (v, g) \<Rightarrow> map (Pair v) (split_symbols g))"

definition mentions :: "string \<Rightarrow> (verb \<times> string) list" where
  "mentions text = concat (map mentions_of_line (split_lines text))"

definition tally_of :: "(verb \<times> string) list \<Rightarrow> string \<Rightarrow> tally" where
  "tally_of ms k =
     \<lparr>ticker = k, keep = int (count_list ms (Keep, k)), cut = int (count_list ms (Cut, k)),
      sell = int (count_list ms (Sell, k))\<rparr>"

text \<open>A dictionary of tallies that holds, for the listings \<open>ms\<close>, one entry for each
  symbol listed, with the counts of \<open>tally_of\<close>.\<close>

definition tallied :: "(verb \<times> string) list \<Rightarrow> (string \<times> tally) list \<Rightarrow> bool" where
  "tallied ms tal =
     (distinct (map fst tal) \<and>
      map_of tal = (\<lambda>k. if k \<in> snd ` set ms then Some (tally_of ms k) else None))"


section \<open>Detection: properties\<close>

lemma well_keyed_update:
  "well_keyed cands \<Longrightarrow> admissible k \<Longrightarrow> well_keyed (AList.update k v cands)"
  by (simp add: well_keyed_def distinct_update update_keys)

lemma well_keyed_add: "well_keyed cands \<Longrightarrow> well_keyed (add s r cands)"
  by (simp add: add_def Let_def well_keyed_update admissible_def)

lemma add_keys:
  "fst ` set (add g reason cands) =
     (if admissible (upper g) then insert (upper g) (fst ` set cands) else fst ` set cands)"
proof -
  have "set (map fst (add g reason cands)) =
     (if admissible (upper g) then insert (upper g) (set (map fst cands)) else set (map fst cands))"
    by (auto simp: add_def Let_def update_keys admissible_def simp del: set_map)
  then show ?thesis by simp
qed

lemma fold_preserves:
  "P st \<Longrightarrow> (\<And>x st. P st \<Longrightarrow> P (f x st)) \<Longrightarrow> P (fold f xs st)"
  by (induction xs arbitrary: st) auto

lemma well_keyed_allcaps: "well_keyed cands \<Longrightarrow> well_keyed (allcaps g cands)"
  by (simp add: allcaps_def Let_def well_keyed_add)

lemma well_keyed_action_line: "well_keyed (fst st) \<Longrightarrow> well_keyed (fst (action_line l st))"
proof (cases "ACTION l")
  case None
  then show "well_keyed (fst st) \<Longrightarrow> ?thesis" by (simp add: action_line_def)
next
  case (Some m)
  obtain v g where m: "m = (v, g)" by (cases m)
  assume "well_keyed (fst st)"
  then have "well_keyed (fst (fold (\<lambda>symb (cands, tal).
       (add symb (list_reason v) cands, tally_up v symb tal)) (split_symbols g) st))"
    by (rule fold_preserves) (auto simp: well_keyed_add split: prod.splits)
  with Some m show ?thesis by (simp add: action_line_def)
qed

lemma well_keyed_scan: "well_keyed (fst (scan text))"
proof -
  let ?c1 = "fold (\<lambda>g. add g ''cashtag'') (finditer CASHTAG None text) []"
  let ?c2 = "fold (\<lambda>g. add g ''paren'') (finditer PAREN None text) ?c1"
  let ?c3 = "fold (\<lambda>g. add g ''url'') (finditer URL_TKR None text) ?c2"
  let ?st = "fold action_line (split_lines text) (?c3, [])"
  have "well_keyed []" by (simp add: well_keyed_def)
  then have "well_keyed ?c1" by (rule fold_preserves) (rule well_keyed_add)
  then have "well_keyed ?c2" by (rule fold_preserves) (rule well_keyed_add)
  then have "well_keyed ?c3" by (rule fold_preserves) (rule well_keyed_add)
  then have "well_keyed (fst (?c3, []::(string \<times> tally) list))" by simp
  then have "well_keyed (fst ?st)" by (rule fold_preserves) (rule well_keyed_action_line)
  then have "well_keyed (fold allcaps (finditer UPPERC None text) (fst ?st))"
    by (rule fold_preserves) (rule well_keyed_allcaps)
  then show ?thesis by (simp add: scan_def Let_def split_beta)
qed

lemma map_insort_key: "map f (insort_key f x xs) = insort (f x) (map f xs)"
  by (induction xs) auto

lemma map_sort_key: "map f (sort_key f xs) = sort (map f xs)"
  by (induction xs) (auto simp: map_insort_key)

lemma candidate_symbols:
  "map symbol (candidates (detect_from_story charref s)) = sort (map fst (fst (scan (joined charref s))))"
proof -
  have "map symbol (map (\<lambda>(symb, rs). \<lparr>symbol = symb, reasons = sort rs\<rparr>) xs) = map fst xs"
    for xs :: "(string \<times> string list) list"
    by (induction xs) auto
  then show ?thesis
    by (simp add: detect_from_story_def split_beta Let_def map_sort_key del: map_map)
qed

lemma candidate_symbols_sorted: "sorted (map symbol (candidates (detect_from_story charref s)))"
  by (simp only: candidate_symbols sorted_sort)

lemma candidate_symbols_distinct: "distinct (map symbol (candidates (detect_from_story charref s)))"
  using well_keyed_scan [of "joined charref s"]
  by (simp only: candidate_symbols distinct_sort well_keyed_def)

lemma candidate_symbols_admissible:
  "k \<in> set (map symbol (candidates (detect_from_story charref s))) \<Longrightarrow> admissible k"
  using well_keyed_scan [of "joined charref s"]
  by (auto simp: candidate_symbols well_keyed_def list_all_iff)

lemma detect_all_matchers:
  "detect_from_story (\<lambda>s. s) (titled ''$ETF (ETF) /quote/ETF ETF and $NVDA'') =
     \<lparr>d_url = None, d_title = Some ''$ETF (ETF) /quote/ETF ETF and $NVDA'',
      candidates = [\<lparr>symbol = ''NVDA'', reasons = [''allcaps'', ''cashtag'']\<rparr>], tallies = []\<rparr>"
  by code_simp

text \<open>
  Claim C7. No symbol of the stop-list is ever among the candidates of a story, whatever
  the text and whichever matcher proposed it: every proposal goes through \<open>add\<close>, and
  \<open>add\<close>, for every proposed string and every reason tag, leaves the stop-listed keys of
  the dictionary as they were (none, from the empty dictionary on).
\<close>

theorem stop_list_excluded:
  "symbol ` set (candidates (detect_from_story charref s)) \<inter> STOP = {}
   \<and> fst ` set (add g reason cands) \<inter> STOP = fst ` set cands \<inter> STOP"
proof -
  have "fst ` set (add g reason cands) \<inter> STOP = fst ` set cands \<inter> STOP"
    using add_keys [of g reason cands] by (auto simp: admissible_def split: if_splits)
  moreover have "symbol ` set (candidates (detect_from_story charref s)) \<inter> STOP = {}"
    using candidate_symbols_admissible [of _ charref s]
    by (auto simp: admissible_def)
  ultimately show ?thesis by simp
qed

theorem stop_list_excluded_witness:
  "candidates (detect_from_story (\<lambda>s. s) (titled ''$ETF (ETF) /quote/ETF ETF and $NVDA'')) =
     [\<lparr>symbol = ''NVDA'', reasons = [''allcaps'', ''cashtag'']\<rparr>]
   \<and> {''NVDA''} \<inter> STOP = {}"
  using stop_list_excluded [of "\<lambda>s. s" "titled ''$ETF (ETF) /quote/ETF ETF and $NVDA''"]
  by (simp add: detect_all_matchers)

lemma action_line_snd:
  "snd (action_line l st) = fold (\<lambda>(v, k). tally_up v k) (mentions_of_line l) (snd st)"
proof (cases "ACTION l")
  case None
  then show ?thesis by (simp add: action_line_def mentions_of_line_def)
next
  case (Some m)
  obtain v g where m: "m = (v, g)" by (cases m)
  have "snd (fold (\<lambda>symb (cands, tal). (add symb r cands, tally_up v symb tal)) ks st)
        = fold (\<lambda>(v, k). tally_up v k) (map (Pair v) ks) (snd st)" for ks r
    by (induction ks arbitrary: st) (auto simp: split_beta)
  with Some m show ?thesis by (simp add: action_line_def mentions_of_line_def)
qed

lemma fold_action_line_snd:
  "snd (fold action_line ls st) =
     fold (\<lambda>(v, k). tally_up v k) (concat (map mentions_of_line ls)) (snd st)"
  by (induction ls arbitrary: st) (auto simp: action_line_snd)

lemma scan_snd: "snd (scan text) = fold (\<lambda>(v, k). tally_up v k) (mentions text) []"
  by (simp add: scan_def Let_def split_beta fold_action_line_snd mentions_def)

lemma tally_of_unmentioned:
  "k \<notin> snd ` set ms \<Longrightarrow> tally_of ms k = \<lparr>ticker = k, keep = 0, cut = 0, sell = 0\<rparr>"
proof -
  assume "k \<notin> snd ` set ms"
  then have "(v, k) \<notin> set ms" for v by force
  then have "count_list ms (v, k) = 0" for v by (simp add: count_list_0_iff)
  then show ?thesis by (simp add: tally_of_def)
qed

lemma tally_of_snoc:
  "tally_of (ms @ [(v, k)]) k' = (if k' = k then count_up v (tally_of ms k) else tally_of ms k')"
  by (cases v) (auto simp: tally_of_def count_up_def)

lemma tallied_step:
  assumes "tallied ms tal"
  shows "tallied (ms @ [(v, k)]) (tally_up v k tal)"
proof -
  from assms have d: "distinct (map fst tal)"
    and m: "map_of tal = (\<lambda>k. if k \<in> snd ` set ms then Some (tally_of ms k) else None)"
    by (auto simp: tallied_def)
  have old: "(case map_of tal k of None \<Rightarrow> \<lparr>ticker = k, keep = 0, cut = 0, sell = 0\<rparr> | Some t \<Rightarrow> t)
             = tally_of ms k"
    by (simp add: m tally_of_unmentioned)
  have "map_of (tally_up v k tal) =
          (\<lambda>k'. if k' \<in> snd ` set (ms @ [(v, k)]) then Some (tally_of (ms @ [(v, k)]) k') else None)"
    unfolding tally_up_def old update_conv' by (auto simp: m tally_of_snoc fun_eq_iff)
  moreover have "distinct (map fst (tally_up v k tal))"
    using d by (simp add: tally_up_def distinct_update)
  ultimately show ?thesis by (simp add: tallied_def)
qed

lemma tallied_fold:
  "tallied pre tal \<Longrightarrow> tallied (pre @ ms) (fold (\<lambda>(v, k). tally_up v k) ms tal)"
proof (induction ms arbitrary: pre tal)
  case Nil
  then show ?case by simp
next
  case (Cons m ms)
  obtain v k where m: "m = (v, k)" by (cases m)
  from Cons.IH [OF tallied_step [OF Cons.prems, of v k]] m show ?case by simp
qed

lemma tallied_scan: "tallied (mentions text) (snd (scan text))"
proof -
  have "tallied [] []" by (simp add: tallied_def fun_eq_iff)
  from tallied_fold [OF this, of "mentions text"] show ?thesis by (simp add: scan_snd)
qed

lemma tallied_entries:
  assumes "tallied ms tal"
  shows "set tal = (\<lambda>k. (k, tally_of ms k)) ` snd ` set ms"
proof -
  from assms have d: "distinct (map fst tal)"
    and m: "map_of tal = (\<lambda>k. if k \<in> snd ` set ms then Some (tally_of ms k) else None)"
    by (auto simp: tallied_def)
  have "(k, t) \<in> set tal \<longleftrightarrow> k \<in> snd ` set ms \<and> t = tally_of ms k" for k t
  proof -
    have "(k, t) \<in> set tal \<longleftrightarrow> map_of tal k = Some t"
      using map_of_eq_Some_iff [OF d, of k t] by simp
    also have "\<dots> \<longleftrightarrow> k \<in> snd ` set ms \<and> t = tally_of ms k"
      unfolding m by (cases "k \<in> snd ` set ms") auto
    finally show ?thesis .
  qed
  then show ?thesis by (auto simp: image_iff)
qed

lemma ticker_tally_of: "ticker (tally_of ms k) = k"
  by (simp add: tally_of_def)

lemma tallied_tickers:
  assumes "tallied ms tal"
  shows "map ticker (map snd tal) = map fst tal"
  using tallied_entries [OF assms] by (auto simp: ticker_tally_of)

lemma tallies_characterised:
  "set (tallies (detect_from_story charref s)) = tally_of (mentions (joined charref s)) ` snd ` set (mentions (joined charref s))
   \<and> sorted (map ticker (tallies (detect_from_story charref s)))
   \<and> distinct (map ticker (tallies (detect_from_story charref s)))"
proof -
  let ?ms = "mentions (joined charref s)"
  let ?tal = "snd (scan (joined charref s))"
  have t: "tallied ?ms ?tal" by (rule tallied_scan)
  have out: "tallies (detect_from_story charref s) = sort_key ticker (map snd ?tal)"
    by (simp add: detect_from_story_def split_beta)
  have a: "set (map snd ?tal) = tally_of ?ms ` snd ` set ?ms"
    unfolding set_map tallied_entries [OF t] image_image by simp
  have b: "distinct (map ticker (map snd ?tal))"
    using t unfolding tallied_tickers [OF t] by (simp add: tallied_def)
  show ?thesis
    unfolding out using a b by (simp add: map_sort_key del: map_map)
qed
















lemmas joined_simps =
  joined_def blocks_def or_empty_def clean_def html_unescape_def strip_def is_space_def NL_def
  titled_def in_excerpt_def in_combined_text_def in_comment_def

lemma detect_via_scan:
  "joined charref s = text \<Longrightarrow> scan text = (cands, tal) \<Longrightarrow>
   detect_from_story charref s =
     \<lparr>d_url = url s, d_title = title s,
      candidates = map (\<lambda>(symb, rs). \<lparr>symbol = symb, reasons = sort rs\<rparr>) (sort_key fst cands),
      tallies = sort_key ticker (map snd tal)\<rparr>"
  by (simp add: detect_from_story_def)

lemma joined_strong:
  "joined charref (titled strong_text) = ''$NVDA and (OXY) look strong, Keep: NVDA, AAPL \<newline>  \<newline> ''"
  "joined charref (in_excerpt strong_text) = '' \<newline> $NVDA and (OXY) look strong, Keep: NVDA, AAPL \<newline> ''"
  "joined charref (in_combined_text strong_text) = '' \<newline>  \<newline> $NVDA and (OXY) look strong, Keep: NVDA, AAPL''"
  "joined charref (in_comment strong_text) = '' \<newline>  \<newline>  \<newline> $NVDA and (OXY) look strong, Keep: NVDA, AAPL''"
  by (simp_all add: joined_simps strong_text_def)

lemma scan_strong:
  "scan ''$NVDA and (OXY) look strong, Keep: NVDA, AAPL \<newline>  \<newline> '' =
     ([(''NVDA'', [''allcaps'', ''cashtag'']), (''OXY'', [''allcaps'', ''paren'']), (''AAPL'', [''allcaps''])], [])"
  "scan '' \<newline> $NVDA and (OXY) look strong, Keep: NVDA, AAPL \<newline> '' =
     ([(''NVDA'', [''allcaps'', ''cashtag'']), (''OXY'', [''allcaps'', ''paren'']), (''AAPL'', [''allcaps''])], [])"
  "scan '' \<newline>  \<newline> $NVDA and (OXY) look strong, Keep: NVDA, AAPL'' =
     ([(''NVDA'', [''allcaps'', ''cashtag'']), (''OXY'', [''allcaps'', ''paren'']), (''AAPL'', [''allcaps''])], [])"
  "scan '' \<newline>  \<newline>  \<newline> $NVDA and (OXY) look strong, Keep: NVDA, AAPL'' =
     ([(''NVDA'', [''allcaps'', ''cashtag'']), (''OXY'', [''allcaps'', ''paren'']), (''AAPL'', [''allcaps''])], [])"
  by code_simp+

lemma sort_strong:
  "map (\<lambda>(symb, rs). \<lparr>symbol = symb, reasons = sort rs\<rparr>)
     (sort_key fst [(''NVDA'', [''allcaps'', ''cashtag'']), (''OXY'', [''allcaps'', ''paren'']), (''AAPL'', [''allcaps''])])
     = strong_candidates"
  by code_simp












lemma joined_keep:
  "joined charref (titled ''Keep: NVDA, AAPL'') = ''Keep: NVDA, AAPL \<newline>  \<newline> ''"
  "joined charref (titled ''Keep: ETF'') = ''Keep: ETF \<newline>  \<newline> ''"
  by (simp_all add: joined_simps)

lemma scan_keep:
  "scan ''Keep: NVDA, AAPL \<newline>  \<newline> '' =
     ([(''NVDA'', [''allcaps'', ''list:Keep'']), (''AAPL'', [''allcaps'', ''list:Keep''])],
      [(''NVDA'', \<lparr>ticker = ''NVDA'', keep = 1, cut = 0, sell = 0\<rparr>),
       (''AAPL'', \<lparr>ticker = ''AAPL'', keep = 1, cut = 0, sell = 0\<rparr>)])"
  "scan ''Keep: ETF \<newline>  \<newline> '' = ([], [(''ETF'', \<lparr>ticker = ''ETF'', keep = 1, cut = 0, sell = 0\<rparr>)])"
  by code_simp+



lemma detect_keep_ETF:
  "detect_from_story charref (titled ''Keep: ETF'') =
     \<lparr>d_url = None, d_title = Some ''Keep: ETF'', candidates = [],
      tallies = [\<lparr>ticker = ''ETF'', keep = 1, cut = 0, sell = 0\<rparr>]\<rparr>"
  unfolding detect_via_scan [OF joined_keep(2) scan_keep(2)]
  by (simp add: titled_def)


text \<open>
  Claim C2, as stated: for the story whose entire text is
  \<open>$NVDA and (OXY) look strong, Keep: NVDA, AAPL\<close> the candidates are AAPL with reasons
  \<open>list:Keep\<close>, NVDA with \<open>cashtag\<close> and \<open>list:Keep\<close>, and OXY with \<open>paren\<close>. It fails,
  whichever field of the story holds the text.
\<close>

theorem strong_scenario_counterexample:
  "candidates (detect_from_story (\<lambda>s. s) (titled ''$NVDA and (OXY) look strong, Keep: NVDA, AAPL'')) \<noteq>
     [\<lparr>symbol = ''AAPL'', reasons = [''list:Keep'']\<rparr>,
      \<lparr>symbol = ''NVDA'', reasons = [''cashtag'', ''list:Keep'']\<rparr>,
      \<lparr>symbol = ''OXY'', reasons = [''paren'']\<rparr>]
   \<and> candidates (detect_from_story (\<lambda>s. s) (in_excerpt ''$NVDA and (OXY) look strong, Keep: NVDA, AAPL'')) \<noteq>
     [\<lparr>symbol = ''AAPL'', reasons = [''list:Keep'']\<rparr>,
      \<lparr>symbol = ''NVDA'', reasons = [''cashtag'', ''list:Keep'']\<rparr>,
      \<lparr>symbol = ''OXY'', reasons = [''paren'']\<rparr>]
   \<and> candidates (detect_from_story (\<lambda>s. s) (in_combined_text ''$NVDA and (OXY) look strong, Keep: NVDA, AAPL'')) \<noteq>
     [\<lparr>symbol = ''AAPL'', reasons = [''list:Keep'']\<rparr>,
      \<lparr>symbol = ''NVDA'', reasons = [''cashtag'', ''list:Keep'']\<rparr>,
      \<lparr>symbol = ''OXY'', reasons = [''paren'']\<rparr>]
   \<and> candidates (detect_from_story (\<lambda>s. s) (in_comment ''$NVDA and (OXY) look strong, Keep: NVDA, AAPL'')) \<noteq>
     [\<lparr>symbol = ''AAPL'', reasons = [''list:Keep'']\<rparr>,
      \<lparr>symbol = ''NVDA'', reasons = [''cashtag'', ''list:Keep'']\<rparr>,
      \<lparr>symbol = ''OXY'', reasons = [''paren'']\<rparr>]"
  by code_simp

text \<open>
  Claim C2, amended. For the story whose entire text is
  \<open>$NVDA and (OXY) look strong, Keep: NVDA, AAPL\<close> (in the title, the excerpt, the
  combined text or a comment) the candidates are exactly AAPL with reasons \<open>allcaps\<close>,
  NVDA with \<open>allcaps\<close> and \<open>cashtag\<close>, and OXY with \<open>allcaps\<close> and \<open>paren\<close>, and there
  are no tallies: each of the three symbols is also a bare uppercase token, and the text
  is not a recommendation line, since \<open>ACTION\<close> matches a verb at the start of a line
  only.
\<close>

theorem strong_scenario:
  "candidates (detect_from_story charref (titled strong_text)) = strong_candidates
   \<and> candidates (detect_from_story charref (in_excerpt strong_text)) = strong_candidates
   \<and> candidates (detect_from_story charref (in_combined_text strong_text)) = strong_candidates
   \<and> candidates (detect_from_story charref (in_comment strong_text)) = strong_candidates
   \<and> tallies (detect_from_story charref (titled strong_text)) = []
   \<and> tallies (detect_from_story charref (in_excerpt strong_text)) = []
   \<and> tallies (detect_from_story charref (in_combined_text strong_text)) = []
   \<and> tallies (detect_from_story charref (in_comment strong_text)) = []
   \<and> ACTION strong_text = None"
proof -
  have "ACTION strong_text = None" by code_simp
  then show ?thesis
    unfolding detect_via_scan [OF joined_strong(1) scan_strong(1)]
      detect_via_scan [OF joined_strong(2) scan_strong(2)]
      detect_via_scan [OF joined_strong(3) scan_strong(3)]
      detect_via_scan [OF joined_strong(4) scan_strong(4)]
      sort_strong
    by simp
qed



text \<open>
  Claim C9. The tallies are not filtered by the stop-list. The story whose text is the
  line \<open>Keep: ETF\<close> has the tally ETF with keep 1 and no candidate, ETF being
  shape-valid and stop-listed, so its tally symbols are not a subset of its candidate
  symbols. In every story the tally symbols are all the symbols listed on recommendation
  lines, stop-listed or not, while no candidate symbol is stop-listed.
\<close>

theorem tallies_not_filtered:
  "detect_from_story charref (titled ''Keep: ETF'') =
     \<lparr>d_url = None, d_title = Some ''Keep: ETF'', candidates = [],
      tallies = [\<lparr>ticker = ''ETF'', keep = 1, cut = 0, sell = 0\<rparr>]\<rparr>
   \<and> ''ETF'' \<in> STOP \<and> symbol_shape ''ETF''
   \<and> \<not> ticker ` set (tallies (detect_from_story charref (titled ''Keep: ETF'')))
         \<subseteq> symbol ` set (candidates (detect_from_story charref (titled ''Keep: ETF'')))
   \<and> ticker ` set (tallies (detect_from_story charref' s)) = snd ` set (mentions (joined charref' s))
   \<and> symbol ` set (candidates (detect_from_story charref' s)) \<inter> STOP = {}"
proof -
  have a: "''ETF'' \<in> STOP" by (simp add: STOP_def STOP_words_def)
  have b: "symbol_shape ''ETF''" by code_simp
  have c: "ticker ` set (tallies (detect_from_story charref' s)) = snd ` set (mentions (joined charref' s))"
    using tallies_characterised [of charref' s] by (simp add: image_image ticker_tally_of)
  have d: "symbol ` set (candidates (detect_from_story charref' s)) \<inter> STOP = {}"
    using candidate_symbols_admissible [of _ charref' s] by (auto simp: admissible_def)
  from a b c d show ?thesis by (simp add: detect_keep_ETF)
qed

section \<open>The cache and the verification client: properties\<close>

lemma cache_get_miss_snd:
  "fst (cache_get now key c) = None \<Longrightarrow> snd (cache_get now key c) = c(key := None)"
  by (auto simp: cache_get_def split: option.splits if_splits)


lemma cache_get_hit:
  "c key = Some v \<Longrightarrow> now - ts v \<le> TTL \<Longrightarrow> cache_get now key c = (Some (data v), c)"
  by (simp add: cache_get_def)

lemma yahoo_search_miss:
  "fst (cache_get (t_get e) (cache_key q) (cache st)) = None \<Longrightarrow>
   yahoo_search e q st =
     (case reply e of
        Inl err \<Rightarrow> (Inl err, \<lparr>cache = (cache st)(cache_key q := None), sent = sent st @ [q]\<rparr>)
      | Inr d \<Rightarrow> (Inr d, \<lparr>cache = (cache st)(cache_key q \<mapsto> \<lparr>ts = t_set e, data = d\<rparr>), sent = sent st @ [q]\<rparr>))"
  using cache_get_miss_snd [of "t_get e" "cache_key q" "cache st"]
  by (cases "cache_get (t_get e) (cache_key q) (cache st)")
     (simp add: yahoo_search_def cache_set_def split: sum.splits)

lemma yahoo_search_hit:
  "cache st (cache_key q) = Some v \<Longrightarrow> t_get e - ts v \<le> TTL \<Longrightarrow>
   yahoo_search e q st = (Inr (data v), st)"
  by (simp add: yahoo_search_def cache_get_hit)

lemma verify_symbol_snd: "snd (verify_symbol e s st) = snd (yahoo_search e s st)"
  by (simp add: verify_symbol_def split: prod.splits sum.splits)

lemma resolve_name_snd: "snd (resolve_name e s st) = snd (yahoo_search e s st)"
  by (simp add: resolve_name_def split: prod.splits sum.splits)



lemma yahoo_search_other:
  "k \<noteq> cache_key q \<Longrightarrow> cache (snd (yahoo_search e q st)) k = cache st k"
  by (auto simp: yahoo_search_def cache_get_def cache_set_def Let_def split: option.splits sum.splits)




text \<open>
  Claim C1, as stated: symbol lookups are cached under \<open>"symbol:"+symbol\<close> and name
  lookups under \<open>"name:"+name\<close>, so that a symbol verification of \<open>s\<close> never serves a
  name resolution of \<open>s\<close> from the cache. It fails: after AAPL is verified, the cache has
  no entry under \<open>symbol:AAPL\<close> or \<open>name:AAPL\<close> but one under \<open>yh:AAPL\<close>, and a name
  resolution of AAPL is answered from that entry without a query, although the endpoint
  would have timed out.
\<close>

theorem separate_namespaces_counterexample:
  "(let st1 = snd (verify_symbol \<lparr>t_get = 0, reply = Inr AAPL_reply, t_set = 1\<rparr> ''AAPL'' S0) in
      cache st1 ''symbol:AAPL'' = None
      \<and> cache st1 ''name:AAPL'' = None
      \<and> cache st1 ''yh:AAPL'' = Some \<lparr>ts = 1, data = AAPL_reply\<rparr>
      \<and> sent st1 = [''AAPL'']
      \<and> resolve_name \<lparr>t_get = 2, reply = Inl Timeout, t_set = 3\<rparr> ''AAPL'' st1
          = (Some \<lparr>v_symbol = Some ''AAPL'', v_shortname = Some ''Apple Inc.'',
                   v_longname = Some ''Apple Inc.'', v_exchange = Some ''NASDAQ'',
                   v_type = Some ''EQUITY''\<rparr>, st1))"
  by (simp add: verify_symbol_def resolve_name_def yahoo_search_def cache_get_def cache_set_def
        cache_key_def S0_def AAPL_reply_def TTL_def select_name_def get_quotes_def from_quote_def)

text \<open>
  Claim C1, amended. \<open>verify_symbol\<close> and \<open>resolve_name\<close> share one cache namespace: both
  go through \<open>yahoo_search\<close>, which keeps the unselected reply of the endpoint under
  \<open>"yh:"+query\<close>. After a lookup of \<open>s\<close> of either kind that asked the endpoint and got a
  reply, a lookup of \<open>s\<close> of the other kind read within 900 seconds of the store is served
  from that entry, sends no query and leaves the state as it is; each kind applies its own
  selection to the cached reply.
\<close>

theorem shared_search_cache:
  "cache_key s = ''yh:'' @ s
   \<and> snd (verify_symbol e s st) = snd (yahoo_search e s st)
   \<and> snd (resolve_name e s st) = snd (yahoo_search e s st)
   \<and> (k \<noteq> ''yh:'' @ s \<longrightarrow> cache (snd (yahoo_search e s st)) k = cache st k)
   \<and> (fst (cache_get (t_get ea) (cache_key s) (cache st)) = None \<and> reply ea = Inr d
        \<and> t_get eb - t_set ea \<le> 900 \<longrightarrow>
         verify_symbol ea s st =
           (select_symbol s d,
            \<lparr>cache = (cache st)(''yh:'' @ s \<mapsto> \<lparr>ts = t_set ea, data = d\<rparr>), sent = sent st @ [s]\<rparr>)
       \<and> resolve_name ea s st =
           (select_name d,
            \<lparr>cache = (cache st)(''yh:'' @ s \<mapsto> \<lparr>ts = t_set ea, data = d\<rparr>), sent = sent st @ [s]\<rparr>)
       \<and> resolve_name eb s (snd (verify_symbol ea s st)) = (select_name d, snd (verify_symbol ea s st))
       \<and> verify_symbol eb s (snd (resolve_name ea s st)) = (select_symbol s d, snd (resolve_name ea s st)))"
proof -
  have k: "cache_key s = ''yh:'' @ s" by (simp add: cache_key_def)
  have other: "k \<noteq> ''yh:'' @ s \<longrightarrow> cache (snd (yahoo_search e s st)) k = cache st k"
    using yahoo_search_other [of k s e st] by (simp add: k)
  have served: "verify_symbol ea s st =
           (select_symbol s d,
            \<lparr>cache = (cache st)(''yh:'' @ s \<mapsto> \<lparr>ts = t_set ea, data = d\<rparr>), sent = sent st @ [s]\<rparr>)
       \<and> resolve_name ea s st =
           (select_name d,
            \<lparr>cache = (cache st)(''yh:'' @ s \<mapsto> \<lparr>ts = t_set ea, data = d\<rparr>), sent = sent st @ [s]\<rparr>)
       \<and> resolve_name eb s (snd (verify_symbol ea s st)) = (select_name d, snd (verify_symbol ea s st))
       \<and> verify_symbol eb s (snd (resolve_name ea s st)) = (select_symbol s d, snd (resolve_name ea s st))"
    if asked: "fst (cache_get (t_get ea) (cache_key s) (cache st)) = None"
      and ok: "reply ea = Inr d" and within: "t_get eb - t_set ea \<le> 900"
  proof -
    let ?st1 = "\<lparr>cache = (cache st)(cache_key s \<mapsto> \<lparr>ts = t_set ea, data = d\<rparr>), sent = sent st @ [s]\<rparr>"
    have s1: "yahoo_search ea s st = (Inr d, ?st1)"
      using yahoo_search_miss [OF asked] ok by simp
    have s2: "yahoo_search eb s ?st1 = (Inr d, ?st1)"
      using yahoo_search_hit [of ?st1 s "\<lparr>ts = t_set ea, data = d\<rparr>" eb] within
      by (simp add: TTL_def)
    have v1: "verify_symbol ea s st = (select_symbol s d, ?st1)"
      by (simp add: verify_symbol_def s1)
    have r1: "resolve_name ea s st = (select_name d, ?st1)"
      by (simp add: resolve_name_def s1)
    have r2: "resolve_name eb s ?st1 = (select_name d, ?st1)"
      by (simp add: resolve_name_def s2)
    have v2: "verify_symbol eb s ?st1 = (select_symbol s d, ?st1)"
      by (simp add: verify_symbol_def s2)
    show ?thesis
      unfolding v1 r1 snd_conv r2 v2 using k by simp
  qed
  have w: "snd (verify_symbol e s st) = snd (yahoo_search e s st)"
    by (rule verify_symbol_snd)
  have r: "snd (resolve_name e s st) = snd (yahoo_search e s st)"
    by (rule resolve_name_snd)
  from k w r other served show ?thesis by blast
qed

theorem shared_search_cache_witness:
  "fst (cache_get 0 (cache_key ''AAPL'') (cache S0)) = None
   \<and> resolve_name \<lparr>t_get = 2, reply = Inl Timeout, t_set = 3\<rparr> ''AAPL''
        (snd (verify_symbol \<lparr>t_get = 0, reply = Inr AAPL_reply, t_set = 1\<rparr> ''AAPL'' S0))
      = (select_name AAPL_reply,
         \<lparr>cache = [''yh:AAPL'' \<mapsto> \<lparr>ts = 1, data = AAPL_reply\<rparr>], sent = [''AAPL'']\<rparr>)"
proof -
  let ?e1 = "\<lparr>t_get = 0, reply = Inr AAPL_reply, t_set = 1\<rparr>"
  let ?e2 = "\<lparr>t_get = 2, reply = Inl Timeout, t_set = 3\<rparr>"
  have h1: "fst (cache_get (t_get ?e1) (cache_key ''AAPL'') (cache S0)) = None"
    by (simp add: cache_get_def S0_def)
  have h2: "reply ?e1 = Inr AAPL_reply" by simp
  have h3: "t_get ?e2 - t_set ?e1 \<le> 900" by simp
  note t = shared_search_cache [where ea = ?e1 and eb = ?e2 and s = "''AAPL''" and st = S0 and d = AAPL_reply,
      THEN conjunct2, THEN conjunct2, THEN conjunct2, THEN conjunct2, rule_format,
      OF conjI [OF h1 conjI [OF h2 h3]]]
  note a = t [THEN conjunct1]
  note b = t [THEN conjunct2, THEN conjunct2, THEN conjunct1, unfolded a snd_conv]
  show ?thesis unfolding a snd_conv using b h1 by (simp add: S0_def)
qed

text \<open>
  Claim C3. \<open>cache_get\<close> returns the stored payload exactly when the key has an entry whose
  age is at most 900 seconds, and otherwise removes the entry (if there is one) and
  reports a miss; \<open>cache_set\<close> overwrites the key with the current clock reading. So when
  a verification misses the cache and the endpoint answers, a second verification of the
  same symbol read within 900 seconds of the store sends no query, and a third one read
  later than that sends the second query.
\<close>

theorem cache_ttl:
  "cache_get now key c =
           (case c key of
              None \<Rightarrow> (None, c)
            | Some v \<Rightarrow> if now - ts v \<le> 900 then (Some (data v), c) else (None, c(key := None)))
   \<and> cache_set now key p c = c(key \<mapsto> \<lparr>ts = now, data = p\<rparr>)
   \<and> (fst (cache_get (t_get ea) (cache_key q) (cache st)) = None \<and> reply ea = Inr d
        \<and> t_get eb - t_set ea \<le> 900 \<and> t_get ec - t_set ea > 900 \<longrightarrow>
        (let (r1, st1) = verify_symbol ea q st;
             (r2, st2) = verify_symbol eb q st1;
             (r3, st3) = verify_symbol ec q st2
         in sent st1 = sent st @ [q] \<and> sent st2 = sent st @ [q] \<and> r2 = r1
            \<and> sent st3 = sent st @ [q, q]))"
proof -
  have a: "cache_get now key c =
           (case c key of
              None \<Rightarrow> (None, c)
            | Some v \<Rightarrow> if now - ts v \<le> 900 then (Some (data v), c) else (None, c(key := None)))"
    by (simp add: cache_get_def TTL_def split: option.splits)
  have b: "cache_set now key p c = c(key \<mapsto> \<lparr>ts = now, data = p\<rparr>)"
    by (simp add: cache_set_def)
  have c: "(let (r1, st1) = verify_symbol ea q st;
                 (r2, st2) = verify_symbol eb q st1;
                 (r3, st3) = verify_symbol ec q st2
             in sent st1 = sent st @ [q] \<and> sent st2 = sent st @ [q] \<and> r2 = r1
                \<and> sent st3 = sent st @ [q, q])"
    if miss: "fst (cache_get (t_get ea) (cache_key q) (cache st)) = None"
      and ok: "reply ea = Inr d"
      and within: "t_get eb - t_set ea \<le> 900"
      and expired: "t_get ec - t_set ea > 900"
  proof -
    let ?k = "cache_key q"
    let ?st1 = "\<lparr>cache = (cache st)(?k \<mapsto> \<lparr>ts = t_set ea, data = d\<rparr>), sent = sent st @ [q]\<rparr>"
    have s1: "yahoo_search ea q st = (Inr d, ?st1)"
      using yahoo_search_miss [OF miss] ok by simp
    have s2: "yahoo_search eb q ?st1 = (Inr d, ?st1)"
      using yahoo_search_hit [of ?st1 q "\<lparr>ts = t_set ea, data = d\<rparr>" eb] within
      by (simp add: TTL_def)
    have m3: "fst (cache_get (t_get ec) ?k (cache ?st1)) = None"
      using expired by (simp add: cache_get_def TTL_def)
    have s3: "sent (snd (yahoo_search ec q ?st1)) = sent st @ [q, q]"
      using yahoo_search_miss [OF m3] by (simp split: sum.splits)
    have v1: "verify_symbol ea q st = (select_symbol q d, ?st1)"
      by (simp add: verify_symbol_def s1)
    have v2: "verify_symbol eb q ?st1 = (select_symbol q d, ?st1)"
      by (simp add: verify_symbol_def s2)
    have v3: "sent (snd (verify_symbol ec q ?st1)) = sent st @ [q, q]"
      using s3 by (simp add: verify_symbol_snd)
    show ?thesis
      using v3 by (simp add: v1 v2 split_beta)
  qed
  from a b c show ?thesis by blast
qed

theorem cache_ttl_witness:
  "fst (cache_get 0 (cache_key ''AAPL'') (cache S0)) = None
   \<and> (let (r1, st1) = verify_symbol \<lparr>t_get = 0, reply = Inr AAPL_reply, t_set = 1\<rparr> ''AAPL'' S0;
           (r2, st2) = verify_symbol \<lparr>t_get = 901, reply = Inl Timeout, t_set = 902\<rparr> ''AAPL'' st1;
           (r3, st3) = verify_symbol \<lparr>t_get = 902, reply = Inl Timeout, t_set = 903\<rparr> ''AAPL'' st2
       in sent st1 = [''AAPL''] \<and> sent st2 = [''AAPL''] \<and> r2 = r1 \<and> sent st3 = [''AAPL'', ''AAPL''])"
proof -
  let ?e1 = "\<lparr>t_get = 0, reply = Inr AAPL_reply, t_set = 1\<rparr>"
  let ?e2 = "\<lparr>t_get = 901, reply = Inl Timeout, t_set = 902\<rparr>"
  let ?e3 = "\<lparr>t_get = 902, reply = Inl Timeout, t_set = 903\<rparr>"
  have h1: "fst (cache_get (t_get ?e1) (cache_key ''AAPL'') (cache S0)) = None"
    by (simp add: cache_get_def S0_def)
  have h2: "reply ?e1 = Inr AAPL_reply" by simp
  have h3: "t_get ?e2 - t_set ?e1 \<le> 900" by simp
  have h4: "t_get ?e3 - t_set ?e1 > 900" by simp
  note t = cache_ttl [where ea = ?e1 and eb = ?e2 and ec = ?e3 and q = "''AAPL''" and st = S0
      and d = AAPL_reply, THEN conjunct2, THEN conjunct2, rule_format,
      OF conjI [OF h1 conjI [OF h2 conjI [OF h3 h4]]]]
  from t h1 show ?thesis by (simp add: S0_def)
qed



section \<open>The Discover endpoint: properties\<close>

lemma sorted_set_eq: "sorted_set xs = sorted_list_of_set (set xs)"
  by (simp add: sorted_set_def sorted_list_of_set_sort_remdups)

lemma sorted_set_id: "sorted xs \<Longrightarrow> distinct xs \<Longrightarrow> sorted_set xs = xs"
  by (simp add: sorted_set_eq sorted_list_of_set.idem_if_sorted_distinct)


lemma upper_Nil: "upper s = [] \<longleftrightarrow> s = []"
  by (simp add: upper_def)








lemma candidates_attach: "candidates (attach a d) = candidates d"
  by (simp add: attach_def)


lemma allowed_attach_all:
  assumes "set (map symbol (candidates d)) \<subseteq> set u"
      and "sorted (map symbol (candidates d))" and "distinct (map symbol (candidates d))"
  shows "allowed_tickers (attach u d) = map symbol (candidates d)"
proof -
  have "filter (\<lambda>s. s \<in> set u) (map symbol (candidates d)) = map symbol (candidates d)"
    using assms(1) by (intro filter_True) auto
  then show ?thesis
    using assms(2,3) by (simp add: attach_def sorted_set_id del: filter_map)
qed

lemma detect_NVDA:
  "detect_from_story (\<lambda>s. s) (titled ''$NVDA up'') =
     \<lparr>d_url = None, d_title = Some ''$NVDA up'',
      candidates = [\<lparr>symbol = ''NVDA'', reasons = [''allcaps'', ''cashtag'']\<rparr>], tallies = []\<rparr>"
  by code_simp

lemma detect_AAPL:
  "detect_from_story (\<lambda>s. s) (titled ''(AAPL) and $NVDA'') =
     \<lparr>d_url = None, d_title = Some ''(AAPL) and $NVDA'',
      candidates = [\<lparr>symbol = ''AAPL'', reasons = [''allcaps'', ''paren'']\<rparr>,
                    \<lparr>symbol = ''NVDA'', reasons = [''allcaps'', ''cashtag'']\<rparr>], tallies = []\<rparr>"
  by code_simp




text \<open>
  Claim C10. When \<open>verify\<close> is false, or no story has a candidate, nothing is verified (the
  cache and the queries sent are as before) and the response has no verified symbols, the
  allowed set equal to \<open>union_candidates\<close>, and for every story the allowed tickers equal
  to the sorted list of all its candidate symbols.
\<close>

theorem no_verification:
  assumes "\<not> verify req \<or> (\<Union>s \<in> set (stories req). set (candidates (detect_from_story charref s))) = {}"
  shows "\<exists>resp. discover_n8n charref envs req st = (Inr resp, st)
           \<and> verified resp = []
           \<and> allowed resp = union_candidates resp
           \<and> map allowed_tickers (per_story resp) = map (\<lambda>ps. map symbol (candidates ps)) (per_story resp)"
proof -
  let ?ds = "map (detect_from_story charref) (stories req)"
  let ?u = "sorted_set (all_candidate_symbols ?ds)"
  have set_u: "set ?u = (\<Union>s \<in> set (stories req). symbol ` set (candidates (detect_from_story charref s)))"
    by (auto simp: sorted_set_def all_candidate_symbols_def)
  from assms have skip: "\<not> (verify req \<and> ?u \<noteq> [])"
  proof
    assume "\<not> verify req" then show ?thesis by simp
  next
    assume "(\<Union>s \<in> set (stories req). set (candidates (detect_from_story charref s))) = {}"
    then have "set ?u = {}" unfolding set_u by auto
    then show ?thesis by simp
  qed
  have each: "allowed_tickers (attach ?u d) = map symbol (candidates d)" if "d \<in> set ?ds" for d
  proof -
    from that obtain s where s: "s \<in> set (stories req)" and d: "d = detect_from_story charref s"
      by auto
    have "set (map symbol (candidates d)) \<subseteq> set ?u" using s d unfolding set_u by auto
    then show ?thesis
      unfolding d by (intro allowed_attach_all candidate_symbols_sorted candidate_symbols_distinct)
  qed
  have d: "discover_n8n charref envs req st =
      (Inr \<lparr>per_story = map (attach ?u) ?ds, union_candidates = ?u, verified = [], allowed = ?u\<rparr>, st)"
    using skip by (auto simp: discover_n8n_def Let_def all_candidate_symbols_def)
  have "map allowed_tickers (map (attach ?u) ?ds) = map (\<lambda>ps. map symbol (candidates ps)) (map (attach ?u) ?ds)"
    using each by (simp add: candidates_attach)
  with d show ?thesis by simp
qed

theorem no_verification_witness:
  "\<not> verify \<lparr>stories = two_stories, verify = False\<rparr>
   \<and> discover_n8n (\<lambda>s. s) answers_AAPL \<lparr>stories = two_stories, verify = False\<rparr> S_old =
       (Inr \<lparr>per_story =
               [\<lparr>d_url = None, d_title = Some ''$NVDA up'',
                 candidates = [\<lparr>symbol = ''NVDA'', reasons = [''allcaps'', ''cashtag'']\<rparr>],
                 tallies = [], allowed_tickers = [''NVDA'']\<rparr>,
                \<lparr>d_url = None, d_title = Some ''(AAPL) and $NVDA'',
                 candidates = [\<lparr>symbol = ''AAPL'', reasons = [''allcaps'', ''paren'']\<rparr>,
                               \<lparr>symbol = ''NVDA'', reasons = [''allcaps'', ''cashtag'']\<rparr>],
                 tallies = [], allowed_tickers = [''AAPL'', ''NVDA'']\<rparr>],
             union_candidates = [''AAPL'', ''NVDA''], verified = [],
             allowed = [''AAPL'', ''NVDA'']\<rparr>, S_old)"
  using no_verification [of "\<lparr>stories = two_stories, verify = False\<rparr>" "\<lambda>s. s" answers_AAPL S_old]
  by (simp add: Let_def discover_n8n_def two_stories_def detect_NVDA detect_AAPL sorted_set_def attach_def)

end
